theory Spec2Isabelle
  imports Complex_Main "HOL-Library.Sublist" "HOL-Library.Multiset"
begin

section \<open>Data model of server.js\<close>

text \<open>
  The server keeps four collections: the users and the orders (relational, reached through
  Prisma), the products (documents, reached through Mongoose) and the carts (the
  in-memory object \<^verbatim>\<open>carts\<close>). JavaScript numbers are taken as exact reals: prices,
  quantities and totals are added and multiplied without rounding. Identifiers of products
  are strings, as they arrive in a JSON body or in a path parameter, and the identifier of
  a user is the number the token carries.
\<close>

type_synonym number = real
type_synonym user_key = nat
type_synonym product_key = string

text \<open>A bcrypt hash answers \<^verbatim>\<open>compare\<close> with yes for the password it was made from.\<close>

datatype hash = Hash string

definition bcrypt_hash :: "string \<Rightarrow> hash" where
  "bcrypt_hash password = Hash password"

fun bcrypt_compare :: "string \<Rightarrow> hash \<Rightarrow> bool" where
  "bcrypt_compare password (Hash p) = (password = p)"

record user =
  user_id :: user_key
  user_name :: string
  email :: string
  passwordHash :: hash
  role :: string

record product =
  product_id :: product_key
  sku :: string
  name :: string
  price :: number
  category :: string
  updatedAt :: nat

record cart_entry =
  productId :: product_key
  quantity :: number

record order_item = cart_entry +
  priceAtPurchase :: number

record order =
  order_id :: nat
  userId :: user_key
  total :: number
  items :: "order_item list"

text \<open>
  A token is the payload \<^verbatim>\<open>{ id, role }\<close> together with the secret it was signed
  with and the second at which it expires.
\<close>

record payload =
  tok_id :: user_key
  tok_role :: string

datatype token = Token string payload nat

record state =
  users :: "user list"
  products :: "product list"
  carts :: "user_key \<rightharpoonup> cart_entry list"
  orders :: "order list"

text \<open>
  What a request sees of its surroundings: the secret \<^verbatim>\<open>JWT_SECRET\<close>, the clock in
  seconds, whether the Order Store accepts a write at this moment, and which strings the
  Catalog Store takes for the id of a document. The schema of the products declares no
  \<^verbatim>\<open>_id\<close>, so the id of a product is an ObjectId, and a query by an id that cannot be
  cast to one is rejected. Which strings can be cast is the store's matter (24 hexadecimal
  digits; some versions of the driver take any 12 characters as well).
\<close>

record env =
  jwt_secret :: string
  now :: nat
  order_store_up :: bool
  object_id :: "string \<Rightarrow> bool"

definition hex24 :: "string \<Rightarrow> bool" where
  "hex24 s = (length s = 24 \<and> list_all (\<lambda>c. c \<in> set ''0123456789abcdefABCDEF'') s)"

text \<open>
  A handler answers with \<^verbatim>\<open>res.status(code).json(body)\<close>; the status is 200 where
  the source sets none. A rejected promise of a store that the handler does not catch is
  an \<^verbatim>\<open>error\<close>.
\<close>

datatype json =
    Message string
  | JNull
  | JUser user
  | JLogin token user
  | JProduct product
  | JProducts "product list"
  | JCart "cart_entry list"
  | JOrder order

datatype response = Response nat json

datatype error = PersistenceError | CastError

fun status :: "response \<Rightarrow> nat" where
  "status (Response code body) = code"

fun body :: "response \<Rightarrow> json" where
  "body (Response code b) = b"

section \<open>Tokens and the middleware\<close>

definition jwt_sign :: "payload \<Rightarrow> string \<Rightarrow> nat \<Rightarrow> token" where
  "jwt_sign p secret t = Token secret p (t + 3600)"

fun jwt_verify :: "token \<Rightarrow> string \<Rightarrow> nat \<Rightarrow> payload option" where
  "jwt_verify (Token k p expires) secret t =
     (if k = secret \<and> t < expires then Some p else None)"

text \<open>
  The argument \<^verbatim>\<open>hdr\<close> is \<^verbatim>\<open>req.headers.authorization?.split(' ')[1]\<close>: the
  second field of the header, when there is one.
\<close>

definition authenticate :: "env \<Rightarrow> token option \<Rightarrow> response + payload" where
  "authenticate e hdr =
     (case hdr of
        None \<Rightarrow> Inl (Response 401 (Message ''No token''))
      | Some tok \<Rightarrow>
          (case jwt_verify tok (jwt_secret e) (now e) of
             None \<Rightarrow> Inl (Response 401 (Message ''Invalid token''))
           | Some decoded \<Rightarrow> Inr decoded))"

section \<open>Cart\<close>

text \<open>\<^verbatim>\<open>carts[req.user.id] || []\<close>\<close>

definition cart_of :: "state \<Rightarrow> user_key \<Rightarrow> cart_entry list" where
  "cart_of st u = (case carts st u of None \<Rightarrow> [] | Some c \<Rightarrow> c)"

text \<open>
  \<^verbatim>\<open>item.quantity += quantity\<close> on the entry that \<^verbatim>\<open>find\<close> returned: the first
  one with the product id.
\<close>

fun bump_first :: "product_key \<Rightarrow> number \<Rightarrow> cart_entry list \<Rightarrow> cart_entry list" where
  "bump_first p q [] = []"
| "bump_first p q (i # cart) =
     (if productId i = p then i\<lparr>quantity := quantity i + q\<rparr> # cart
      else i # bump_first p q cart)"

definition cart_add :: "cart_entry list \<Rightarrow> product_key \<Rightarrow> number \<Rightarrow> cart_entry list" where
  "cart_add cart p q =
     (case find (\<lambda>i. productId i = p) cart of
        Some item \<Rightarrow> bump_first p q cart
      | None \<Rightarrow> cart @ [\<lparr>productId = p, quantity = q\<rparr>])"

definition cart_remove :: "cart_entry list \<Rightarrow> product_key \<Rightarrow> cart_entry list" where
  "cart_remove cart p = filter (\<lambda>i. productId i \<noteq> p) cart"

definition get_cart :: "env \<Rightarrow> state \<Rightarrow> token option \<Rightarrow> response" where
  "get_cart e st hdr =
     (case authenticate e hdr of
        Inl denied \<Rightarrow> denied
      | Inr u \<Rightarrow> Response 200 (JCart (cart_of st (tok_id u))))"

definition post_cart ::
  "env \<Rightarrow> state \<Rightarrow> token option \<Rightarrow> product_key \<Rightarrow> number \<Rightarrow> response \<times> state" where
  "post_cart e st hdr p q =
     (case authenticate e hdr of
        Inl denied \<Rightarrow> (denied, st)
      | Inr u \<Rightarrow>
          (let cart = cart_add (cart_of st (tok_id u)) p q
           in (Response 200 (JCart cart), st\<lparr>carts := (carts st)(tok_id u \<mapsto> cart)\<rparr>)))"

definition delete_cart ::
  "env \<Rightarrow> state \<Rightarrow> token option \<Rightarrow> product_key \<Rightarrow> response \<times> state" where
  "delete_cart e st hdr p =
     (case authenticate e hdr of
        Inl denied \<Rightarrow> (denied, st)
      | Inr u \<Rightarrow>
          (let cart = cart_remove (cart_of st (tok_id u)) p
           in (Response 200 (JCart cart), st\<lparr>carts := (carts st)(tok_id u \<mapsto> cart)\<rparr>)))"

section \<open>Checkout\<close>

text \<open>
  \<^verbatim>\<open>Product.findById\<close>: the document with the id, or null; the promise is rejected
  when the id cannot be cast.
\<close>

definition findById :: "env \<Rightarrow> product list \<Rightarrow> product_key \<Rightarrow> error + product option" where
  "findById e ps i =
     (if object_id e i then Inr (find (\<lambda>p. product_id p = i) ps) else Inl CastError)"

text \<open>
  The loop over the cart, with its two accumulators. A rejected lookup is not caught: it
  ends the loop and the handler.
\<close>

fun checkout_loop ::
  "env \<Rightarrow> product list \<Rightarrow> cart_entry list \<Rightarrow> number \<Rightarrow> order_item list \<Rightarrow>
     error + number \<times> order_item list" where
  "checkout_loop e ps [] t its = Inr (t, its)"
| "checkout_loop e ps (item # cart) t its =
     (case findById e ps (productId item) of
        Inl err \<Rightarrow> Inl err
      | Inr None \<Rightarrow> checkout_loop e ps cart t its
      | Inr (Some doc) \<Rightarrow>
          checkout_loop e ps cart (t + price doc * quantity item)
            (its @ [\<lparr>productId = productId item, quantity = quantity item,
                     priceAtPurchase = price doc\<rparr>]))"

text \<open>
  Modelled from the spec: the Prisma schema of the order tables is not among the sources.
  An order is (id, user id, total, list of order items) and an order item is (product id,
  quantity, price at purchase). \<^verbatim>\<open>prisma.order.create\<close> is one write of the order
  with its items: it rejects when the store does not accept the write; otherwise the order
  gets an id from the store and is returned.
\<close>

definition prisma_order_create ::
  "bool \<Rightarrow> order list \<Rightarrow> user_key \<Rightarrow> number \<Rightarrow> order_item list \<Rightarrow> error + order \<times> order list" where
  "prisma_order_create up os u t its =
     (if up
      then (let ord = \<lparr>order_id = Suc (length os), userId = u, total = t, items = its\<rparr>
            in Inr (ord, os @ [ord]))
      else Inl PersistenceError)"

definition post_checkout ::
  "env \<Rightarrow> state \<Rightarrow> token option \<Rightarrow> (error + response) \<times> state" where
  "post_checkout e st hdr =
     (case authenticate e hdr of
        Inl denied \<Rightarrow> (Inr denied, st)
      | Inr u \<Rightarrow>
          (let cart = cart_of st (tok_id u) in
           if cart = [] then (Inr (Response 400 (Message ''Empty cart'')), st)
           else
             (case checkout_loop e (products st) cart 0 [] of
                Inl err \<Rightarrow> (Inl err, st)
              | Inr (t, its) \<Rightarrow>
                  (case prisma_order_create (order_store_up e) (orders st) (tok_id u) t its of
                     Inl err \<Rightarrow> (Inl err, st)
                   | Inr (ord, os) \<Rightarrow>
                       (Inr (Response 200 (JOrder ord)),
                        st\<lparr>orders := os, carts := (carts st)(tok_id u \<mapsto> [])\<rparr>)))))"

section \<open>Registration and login\<close>

text \<open>
  The JavaScript test \<^verbatim>\<open>if (v)\<close> and the operator \<^verbatim>\<open>v || d\<close> on a field that is
  a string when it is there: an absent field and the empty string are both falsy.
\<close>

definition truthy :: "string option \<Rightarrow> bool" where
  "truthy v = (case v of None \<Rightarrow> False | Some s \<Rightarrow> s \<noteq> [])"

definition or_else :: "string option \<Rightarrow> string \<Rightarrow> string" where
  "or_else v d = (case v of None \<Rightarrow> d | Some s \<Rightarrow> if s \<noteq> [] then s else d)"

text \<open>
  Modelled from the spec: the Prisma schema of the user table is not among the sources.
  A user is (id, name, email, password credential, role) and a duplicate registration is
  refused; \<^verbatim>\<open>findUnique({ where: { email } })\<close> in the login handler makes the email the
  unique column. The id is generated by the store.
\<close>

definition prisma_user_create ::
  "user list \<Rightarrow> string \<Rightarrow> string \<Rightarrow> hash \<Rightarrow> string \<Rightarrow> (user \<times> user list) option" where
  "prisma_user_create us nm em h r =
     (if \<exists>u \<in> set us. email u = em then None
      else (let u = \<lparr>user_id = Suc (length us), user_name = nm, email = em,
                      passwordHash = h, role = r\<rparr>
            in Some (u, us @ [u])))"

definition prisma_user_findUnique :: "user list \<Rightarrow> string \<Rightarrow> user option" where
  "prisma_user_findUnique us em = find (\<lambda>u. email u = em) us"

definition post_auth_register ::
  "state \<Rightarrow> string \<Rightarrow> string \<Rightarrow> string \<Rightarrow> string option \<Rightarrow> response \<times> state" where
  "post_auth_register st nm em password role_field =
     (let h = bcrypt_hash password in
      case prisma_user_create (users st) nm em h (or_else role_field ''customer'') of
        Some (u, us) \<Rightarrow> (Response 200 (JUser u), st\<lparr>users := us\<rparr>)
      | None \<Rightarrow> (Response 400 (Message ''User exists''), st))"

definition post_auth_login :: "env \<Rightarrow> state \<Rightarrow> string \<Rightarrow> string \<Rightarrow> response" where
  "post_auth_login e st em password =
     (case prisma_user_findUnique (users st) em of
        None \<Rightarrow> Response 401 (Message ''Invalid credentials'')
      | Some u \<Rightarrow>
          if \<not> bcrypt_compare password (passwordHash u)
          then Response 401 (Message ''Invalid credentials'')
          else Response 200
                 (JLogin (jwt_sign \<lparr>tok_id = user_id u, tok_role = role u\<rparr> (jwt_secret e) (now e)) u))"

section \<open>Products\<close>

text \<open>
  The filter \<^verbatim>\<open>{ $regex: search, $options: 'i' }\<close> hands the search string to the
  store as a regular expression. The store's pattern language is covered for patterns made
  of ordinary characters and the dot: an ordinary character stands for itself, a letter
  from A to Z or a to z in either case, the dot for any character but a line feed, and the
  pattern may match anywhere in the name. For a pattern with any other special character
  \<^verbatim>\<open>rx_parse\<close> gives \<^verbatim>\<open>None\<close>, and so does the query.
\<close>

datatype rx_atom = Lit char | AnyChar

definition rx_special :: "char list" where
  "rx_special = CHR 0x5C # ''^$.|?*+()[]{}''"

fun rx_parse :: "string \<Rightarrow> rx_atom list option" where
  "rx_parse [] = Some []"
| "rx_parse (c # cs) =
     (if c = CHR ''.'' then map_option ((#) AnyChar) (rx_parse cs)
      else if c \<in> set rx_special then None
      else map_option ((#) (Lit c)) (rx_parse cs))"

definition lower :: "char \<Rightarrow> char" where
  "lower c =
     (let n = (of_char c :: nat) in if 65 \<le> n \<and> n \<le> 90 then char_of (n + 32) else c)"

fun rx_atom_match :: "rx_atom \<Rightarrow> char \<Rightarrow> bool" where
  "rx_atom_match (Lit a) c = (lower a = lower c)"
| "rx_atom_match AnyChar c = (c \<noteq> CHR 0x0A)"

fun rx_match_here :: "rx_atom list \<Rightarrow> string \<Rightarrow> bool" where
  "rx_match_here [] s = True"
| "rx_match_here (a # as) [] = False"
| "rx_match_here (a # as) (c # cs) = (rx_atom_match a c \<and> rx_match_here as cs)"

fun rx_search :: "rx_atom list \<Rightarrow> string \<Rightarrow> bool" where
  "rx_search as [] = rx_match_here as []"
| "rx_search as (c # cs) = (rx_match_here as (c # cs) \<or> rx_search as cs)"

text \<open>The object \<^verbatim>\<open>query\<close> that the handler builds from \<^verbatim>\<open>req.query\<close>.\<close>

record query =
  name_regex :: "string option"
  category_eq :: "string option"

definition build_query :: "string option \<Rightarrow> string option \<Rightarrow> query" where
  "build_query search cat =
     \<lparr>name_regex = (if truthy search then search else None),
      category_eq = (if truthy cat then cat else None)\<rparr>"

definition category_ok :: "query \<Rightarrow> product \<Rightarrow> bool" where
  "category_ok q p = (case category_eq q of None \<Rightarrow> True | Some c \<Rightarrow> category p = c)"

definition product_find :: "product list \<Rightarrow> query \<Rightarrow> product list option" where
  "product_find docs q =
     (case name_regex q of
        None \<Rightarrow> Some (filter (category_ok q) docs)
      | Some pat \<Rightarrow>
          (case rx_parse pat of
             None \<Rightarrow> None
           | Some r \<Rightarrow> Some (filter (\<lambda>p. rx_search r (name p) \<and> category_ok q p) docs)))"

text \<open>\<^verbatim>\<open>.sort({ price: -1 })\<close>: by price, highest first, ties in the order of the store.\<close>

definition sort_price_desc :: "product list \<Rightarrow> product list" where
  "sort_price_desc docs = sort_key (\<lambda>p. - price p) docs"

definition get_products :: "state \<Rightarrow> string option \<Rightarrow> string option \<Rightarrow> response option" where
  "get_products st search cat =
     map_option (\<lambda>docs. Response 200 (JProducts (sort_price_desc docs)))
       (product_find (products st) (build_query search cat))"

text \<open>The body of a create request, and the body of an update with the fields it supplies.\<close>

record product_body =
  body_sku :: string
  body_name :: string
  body_price :: number
  body_category :: string
  body_updatedAt :: "nat option"

record product_patch =
  patch_sku :: "string option"
  patch_name :: "string option"
  patch_price :: "number option"
  patch_category :: "string option"
  patch_updatedAt :: "nat option"

definition supplied :: "'a option \<Rightarrow> 'a \<Rightarrow> 'a" where
  "supplied v old = (case v of None \<Rightarrow> old | Some x \<Rightarrow> x)"

definition merge_product :: "product \<Rightarrow> product_patch \<Rightarrow> product" where
  "merge_product p b =
     p\<lparr>sku := supplied (patch_sku b) (sku p),
       name := supplied (patch_name b) (name p),
       price := supplied (patch_price b) (price p),
       category := supplied (patch_category b) (category p),
       updatedAt := supplied (patch_updatedAt b) (updatedAt p)\<rparr>"

text \<open>
  \<^verbatim>\<open>findByIdAndUpdate(id, body, { new: true })\<close>: the first document with the id is
  updated and returned as it is afterwards; null when there is none; rejected when the id
  cannot be cast. \<^verbatim>\<open>findByIdAndDelete\<close> removes the first document with the id, with
  the same rejection.
\<close>

fun update_doc ::
  "product list \<Rightarrow> product_key \<Rightarrow> product_patch \<Rightarrow> product option \<times> product list" where
  "update_doc [] i b = (None, [])"
| "update_doc (p # ps) i b =
     (if product_id p = i then (Some (merge_product p b), merge_product p b # ps)
      else (case update_doc ps i b of (r, ps') \<Rightarrow> (r, p # ps')))"

definition findByIdAndUpdate ::
  "env \<Rightarrow> product list \<Rightarrow> product_key \<Rightarrow> product_patch \<Rightarrow>
     error + product option \<times> product list" where
  "findByIdAndUpdate e ps i b = (if object_id e i then Inr (update_doc ps i b) else Inl CastError)"

fun delete_doc :: "product list \<Rightarrow> product_key \<Rightarrow> product list" where
  "delete_doc [] i = []"
| "delete_doc (p # ps) i = (if product_id p = i then ps else p # delete_doc ps i)"

definition findByIdAndDelete :: "env \<Rightarrow> product list \<Rightarrow> product_key \<Rightarrow> error + product list" where
  "findByIdAndDelete e ps i = (if object_id e i then Inr (delete_doc ps i) else Inl CastError)"

text \<open>
  The id of a new document, \<^verbatim>\<open>oid\<close>, is generated outside the handler; the schema's
  default for \<^verbatim>\<open>updatedAt\<close> is the clock.
\<close>

definition post_products ::
  "env \<Rightarrow> state \<Rightarrow> token option \<Rightarrow> product_key \<Rightarrow> product_body \<Rightarrow> response \<times> state" where
  "post_products e st hdr oid b =
     (case authenticate e hdr of
        Inl denied \<Rightarrow> (denied, st)
      | Inr u \<Rightarrow>
          if tok_role u \<noteq> ''admin'' then (Response 403 (Message ''Admin only''), st)
          else
            (let doc = \<lparr>product_id = oid, sku = body_sku b, name = body_name b,
                        price = body_price b, category = body_category b,
                        updatedAt = supplied (body_updatedAt b) (now e)\<rparr>
             in (Response 200 (JProduct doc), st\<lparr>products := products st @ [doc]\<rparr>)))"

definition put_products ::
  "env \<Rightarrow> state \<Rightarrow> token option \<Rightarrow> product_key \<Rightarrow> product_patch \<Rightarrow>
     (error + response) \<times> state" where
  "put_products e st hdr i b =
     (case authenticate e hdr of
        Inl denied \<Rightarrow> (Inr denied, st)
      | Inr u \<Rightarrow>
          if tok_role u \<noteq> ''admin'' then (Inr (Response 403 (Message ''Admin only'')), st)
          else
            (case findByIdAndUpdate e (products st) i b of
               Inl err \<Rightarrow> (Inl err, st)
             | Inr (r, ps) \<Rightarrow>
                 (Inr (Response 200 (case r of None \<Rightarrow> JNull | Some doc \<Rightarrow> JProduct doc)),
                  st\<lparr>products := ps\<rparr>)))"

definition delete_products ::
  "env \<Rightarrow> state \<Rightarrow> token option \<Rightarrow> product_key \<Rightarrow> (error + response) \<times> state" where
  "delete_products e st hdr i =
     (case authenticate e hdr of
        Inl denied \<Rightarrow> (Inr denied, st)
      | Inr u \<Rightarrow>
          if tok_role u \<noteq> ''admin'' then (Inr (Response 403 (Message ''Admin only'')), st)
          else
            (case findByIdAndDelete e (products st) i of
               Inl err \<Rightarrow> (Inl err, st)
             | Inr ps \<Rightarrow> (Inr (Response 200 (Message ''Deleted'')), st\<lparr>products := ps\<rparr>)))"

section \<open>Runs of requests\<close>

text \<open>
  The two requests that change a cart, as operations of one user, and a run of them
  through the handlers.
\<close>

datatype cart_op = Add product_key number | Remove product_key

fun cart_request :: "env \<Rightarrow> token option \<Rightarrow> state \<Rightarrow> cart_op \<Rightarrow> state" where
  "cart_request e hdr st (Add p q) = snd (post_cart e st hdr p q)"
| "cart_request e hdr st (Remove p) = snd (delete_cart e st hdr p)"

definition run_cart :: "env \<Rightarrow> token option \<Rightarrow> state \<Rightarrow> cart_op list \<Rightarrow> state" where
  "run_cart e hdr st ops = foldl (cart_request e hdr) st ops"

text \<open>
  What the entries of a cart ought to be after a run: the operations after the last removal
  of a product, and the quantities of the adds of that product among them.
\<close>

definition since_last_removal :: "product_key \<Rightarrow> cart_op list \<Rightarrow> cart_op list" where
  "since_last_removal p ops = rev (takeWhile (\<lambda>op. op \<noteq> Remove p) (rev ops))"

fun adds_of :: "product_key \<Rightarrow> cart_op list \<Rightarrow> number list" where
  "adds_of p [] = []"
| "adds_of p (Add p' q # ops) = (if p' = p then q # adds_of p ops else adds_of p ops)"
| "adds_of p (Remove p' # ops) = adds_of p ops"

text \<open>The cart read as a map from product id to quantity, and the map a run should give.\<close>

definition qty_of :: "cart_entry list \<Rightarrow> product_key \<rightharpoonup> number" where
  "qty_of cart = map_of (map (\<lambda>i. (productId i, quantity i)) cart)"

definition expected_qty :: "cart_op list \<Rightarrow> product_key \<rightharpoonup> number" where
  "expected_qty ops p =
     (if adds_of p (since_last_removal p ops) = [] then None
      else Some (sum_list (adds_of p (since_last_removal p ops))))"

text \<open>
  The requests that change the state of the server, each with the surroundings it runs
  in, and the states the server reaches from its start. (The remaining routes, login and
  all of GET, return no new state.)
\<close>

datatype request =
    Register string string string "string option"
  | PostProducts "token option" product_key product_body
  | PutProducts "token option" product_key product_patch
  | DeleteProducts "token option" product_key
  | PostCart "token option" product_key number
  | DeleteCart "token option" product_key
  | PostCheckout "token option"

fun handle :: "state \<Rightarrow> env \<times> request \<Rightarrow> state" where
  "handle st (e, Register nm em password r) = snd (post_auth_register st nm em password r)"
| "handle st (e, PostProducts hdr oid b) = snd (post_products e st hdr oid b)"
| "handle st (e, PutProducts hdr i b) = snd (put_products e st hdr i b)"
| "handle st (e, DeleteProducts hdr i) = snd (delete_products e st hdr i)"
| "handle st (e, PostCart hdr p q) = snd (post_cart e st hdr p q)"
| "handle st (e, DeleteCart hdr p) = snd (delete_cart e st hdr p)"
| "handle st (e, PostCheckout hdr) = snd (post_checkout e st hdr)"

definition initial_state :: state where
  "initial_state = \<lparr>users = [], products = [], carts = Map.empty, orders = []\<rparr>"

definition serve :: "(env \<times> request) list \<Rightarrow> state" where
  "serve reqs = foldl handle initial_state reqs"

fun positive_add :: "request \<Rightarrow> bool" where
  "positive_add (PostCart hdr p q) = (0 < q)"
| "positive_add r = True"

definition carts_positive :: "state \<Rightarrow> bool" where
  "carts_positive st = (\<forall>u. \<forall>i \<in> set (cart_of st u). 0 < quantity i)"

section \<open>The items of an order\<close>

text \<open>
  The order items that a cart gives when every lookup returns: one for each entry whose
  product id is in the catalog, in the order of the cart.
\<close>

fun order_lines :: "product list \<Rightarrow> cart_entry list \<Rightarrow> order_item list" where
  "order_lines ps [] = []"
| "order_lines ps (item # cart) =
     (case find (\<lambda>p. product_id p = productId item) ps of
        None \<Rightarrow> order_lines ps cart
      | Some doc \<Rightarrow>
          \<lparr>productId = productId item, quantity = quantity item, priceAtPurchase = price doc\<rparr>
            # order_lines ps cart)"

section \<open>The list query as the specification words it\<close>

text \<open>
  A case-insensitive substring match on the name, and an exact match on the category;
  a field of the filter that is absent puts no constraint.
\<close>

definition ci_substring :: "string \<Rightarrow> string \<Rightarrow> bool" where
  "ci_substring s nm = sublist (map lower s) (map lower nm)"

definition spec_included :: "string option \<Rightarrow> string option \<Rightarrow> product \<Rightarrow> bool" where
  "spec_included search cat p =
     ((case search of None \<Rightarrow> True | Some s \<Rightarrow> ci_substring s (name p)) \<and>
      (case cat of None \<Rightarrow> True | Some c \<Rightarrow> category p = c))"

section \<open>Example values\<close>

text \<open>
  A store that takes 24 hexadecimal digits for an id. A customer with id 7 whose cart holds
  one pen and three pieces of a product that the catalog does not have.
\<close>

definition pen_id :: product_key where
  "pen_id = ''507f1f77bcf86cd799439011''"

definition absent_id :: product_key where
  "absent_id = ''507f1f77bcf86cd799439012''"

definition example_env :: env where
  "example_env = \<lparr>jwt_secret = ''secret'', now = 100, order_store_up = True, object_id = hex24\<rparr>"

definition example_token :: token where
  "example_token = Token ''secret'' \<lparr>tok_id = 7, tok_role = ''customer''\<rparr> 3600"

definition example_pen :: product where
  "example_pen =
     \<lparr>product_id = pen_id, sku = ''s1'', name = ''Pen'', price = 5, category = ''office'',
      updatedAt = 0\<rparr>"

definition example_state :: state where
  "example_state =
     \<lparr>users = [],
      products = [example_pen],
      carts = [7 \<mapsto> [\<lparr>productId = pen_id, quantity = 1\<rparr>,
                       \<lparr>productId = absent_id, quantity = 3\<rparr>]],
      orders = []\<rparr>"

definition example_order :: order where
  "example_order =
     \<lparr>order_id = 1, userId = 7, total = 5,
      items = [\<lparr>productId = pen_id, quantity = 1, priceAtPurchase = 5\<rparr>]\<rparr>"

text \<open>The same customer with an entry whose product id is no id of the store.\<close>

definition example_state_malformed :: state where
  "example_state_malformed =
     example_state\<lparr>carts := [7 \<mapsto> [\<lparr>productId = pen_id, quantity = 1\<rparr>,
                                       \<lparr>productId = ''missing'', quantity = 3\<rparr>]]\<rparr>"

definition example_ops :: "cart_op list" where
  "example_ops = [Add ''a'' 2, Add ''b'' 1, Add ''a'' 3, Remove ''b'', Add ''b'' 4, Add ''a'' 1]"

text \<open>An administrator, the token a login at second 100 gives her, and two request bodies.\<close>

definition example_admin_token :: token where
  "example_admin_token = Token ''secret'' \<lparr>tok_id = 1, tok_role = ''admin''\<rparr> 3700"

definition example_admin :: user where
  "example_admin =
     \<lparr>user_id = 1, user_name = ''Eve'', email = ''eve@example.org'',
      passwordHash = Hash ''pw'', role = ''admin''\<rparr>"

definition example_patch :: product_patch where
  "example_patch =
     \<lparr>patch_sku = None, patch_name = None, patch_price = Some 12, patch_category = None,
      patch_updatedAt = None\<rparr>"

definition example_body :: product_body where
  "example_body =
     \<lparr>body_sku = ''s2'', body_name = ''Ink'', body_price = 3, body_category = ''office'',
      body_updatedAt = None\<rparr>"

section \<open>Checkout: properties\<close>

subsection \<open>The loop\<close>

text \<open>
  When every product id of the cart can be cast, every lookup returns and the loop adds the
  order items of the cart to its accumulators. Otherwise the first lookup of an id that
  cannot be cast ends it.
\<close>

lemma checkout_loop_returns:
  assumes "\<forall>i \<in> set cart. object_id e (productId i)"
  shows "checkout_loop e ps cart t its =
           Inr (t + (\<Sum>it\<leftarrow>order_lines ps cart. quantity it * priceAtPurchase it),
                its @ order_lines ps cart)"
  using assms
proof (induction cart arbitrary: t its)
  case Nil
  show ?case by simp
next
  case (Cons item cart)
  then have ok: "object_id e (productId item)"
    and rest: "\<forall>i \<in> set cart. object_id e (productId i)"
    by simp_all
  show ?case
  proof (cases "find (\<lambda>p. product_id p = productId item) ps")
    case None
    then show ?thesis using ok Cons.IH [OF rest] by (simp add: findById_def)
  next
    case (Some doc)
    then show ?thesis
      using ok Cons.IH [OF rest] by (simp add: findById_def algebra_simps)
  qed
qed

lemma checkout_loop_rejects:
  assumes "\<not> (\<forall>i \<in> set cart. object_id e (productId i))"
  shows "checkout_loop e ps cart t its = Inl CastError"
  using assms
proof (induction cart arbitrary: t its)
  case Nil
  then show ?case by simp
next
  case (Cons item cart)
  show ?case
  proof (cases "object_id e (productId item)")
    case False
    then show ?thesis by (simp add: findById_def)
  next
    case True
    then have "\<not> (\<forall>i \<in> set cart. object_id e (productId i))"
      using Cons.prems by simp
    from Cons.IH [OF this] True show ?thesis
      by (simp add: findById_def split: option.splits)
  qed
qed

lemma order_lines_prices:
  "it \<in> set (order_lines ps cart) \<Longrightarrow>
     \<exists>i \<in> set cart. \<exists>doc. find (\<lambda>p. product_id p = productId i) ps = Some doc \<and>
        productId it = productId i \<and> quantity it = quantity i \<and> priceAtPurchase it = price doc"
  by (induction cart) (auto split: option.splits)



subsection \<open>The handler\<close>

lemma post_checkout_up:
  assumes "authenticate e hdr = Inr u" and "cart_of st (tok_id u) \<noteq> []"
    and "\<forall>i \<in> set (cart_of st (tok_id u)). object_id e (productId i)"
    and "order_store_up e"
  shows "post_checkout e st hdr =
           (Inr (Response 200 (JOrder
              \<lparr>order_id = Suc (length (orders st)), userId = tok_id u,
               total = (\<Sum>it\<leftarrow>order_lines (products st) (cart_of st (tok_id u)).
                          quantity it * priceAtPurchase it),
               items = order_lines (products st) (cart_of st (tok_id u))\<rparr>)),
            st\<lparr>orders := orders st @
                  [\<lparr>order_id = Suc (length (orders st)), userId = tok_id u,
                    total = (\<Sum>it\<leftarrow>order_lines (products st) (cart_of st (tok_id u)).
                               quantity it * priceAtPurchase it),
                    items = order_lines (products st) (cart_of st (tok_id u))\<rparr>],
               carts := (carts st)(tok_id u \<mapsto> [])\<rparr>)"
  using assms(1,2,4) checkout_loop_returns [OF assms(3), of "products st" 0 "[]"]
  by (simp add: post_checkout_def prisma_order_create_def Let_def)

lemma post_checkout_down:
  assumes "authenticate e hdr = Inr u" and "cart_of st (tok_id u) \<noteq> []"
    and "\<forall>i \<in> set (cart_of st (tok_id u)). object_id e (productId i)"
    and "\<not> order_store_up e"
  shows "post_checkout e st hdr = (Inl PersistenceError, st)"
  using assms(1,2,4) checkout_loop_returns [OF assms(3), of "products st" 0 "[]"]
  by (simp add: post_checkout_def prisma_order_create_def Let_def)

lemma post_checkout_cast:
  assumes "authenticate e hdr = Inr u" and "cart_of st (tok_id u) \<noteq> []"
    and "\<not> (\<forall>i \<in> set (cart_of st (tok_id u)). object_id e (productId i))"
  shows "post_checkout e st hdr = (Inl CastError, st)"
  using assms(1,2) checkout_loop_rejects [OF assms(3), of "products st" 0 "[]"]
  by (simp add: post_checkout_def Let_def)

lemma post_checkout_success:
  assumes "post_checkout e st hdr = (Inr (Response 200 (JOrder ord)), st')"
  shows "\<exists>u. authenticate e hdr = Inr u \<and> cart_of st (tok_id u) \<noteq> [] \<and>
             (\<forall>i \<in> set (cart_of st (tok_id u)). object_id e (productId i)) \<and> order_store_up e"
proof (cases "authenticate e hdr")
  case (Inl denied)
  then have "denied = Response 200 (JOrder ord)"
    using assms by (simp add: post_checkout_def)
  moreover have "\<exists>m. denied = Response 401 (Message m)"
    using Inl by (auto simp: authenticate_def split: option.splits)
  ultimately show ?thesis by auto
next
  case (Inr u)
  show ?thesis
  proof (cases "cart_of st (tok_id u) = []")
    case True
    then show ?thesis using assms Inr by (simp add: post_checkout_def)
  next
    case False
    show ?thesis
    proof (cases "\<forall>i \<in> set (cart_of st (tok_id u)). object_id e (productId i)")
      case malformed: False
      from post_checkout_cast [OF Inr False malformed] assms show ?thesis by simp
    next
      case wf: True
      show ?thesis
      proof (cases "order_store_up e")
        case True
        then show ?thesis using Inr False wf by blast
      next
        case down: False
        from post_checkout_down [OF Inr False wf down] assms show ?thesis by simp
      qed
    qed
  qed
qed

lemma example_ids:
  "hex24 pen_id" "hex24 absent_id" "\<not> hex24 ''missing''" "pen_id \<noteq> absent_id"
  by (simp_all add: hex24_def pen_id_def absent_id_def)

lemma example_auth:
  "authenticate example_env (Some example_token) = Inr \<lparr>tok_id = 7, tok_role = ''customer''\<rparr>"
  by (simp add: authenticate_def example_env_def example_token_def)

lemma example_cart:
  "cart_of example_state 7 =
     [\<lparr>productId = pen_id, quantity = 1\<rparr>, \<lparr>productId = absent_id, quantity = 3\<rparr>]"
  by (simp add: cart_of_def example_state_def)

lemma example_cart_malformed:
  "cart_of example_state_malformed 7 =
     [\<lparr>productId = pen_id, quantity = 1\<rparr>, \<lparr>productId = ''missing'', quantity = 3\<rparr>]"
  by (simp add: cart_of_def example_state_malformed_def)

lemma example_cart_ids:
  "\<forall>i \<in> set (cart_of example_state 7). object_id example_env (productId i)"
  by (simp add: example_cart example_env_def example_ids)

lemma example_lines:
  "order_lines (products example_state) (cart_of example_state 7) =
     [\<lparr>productId = pen_id, quantity = 1, priceAtPurchase = 5\<rparr>]"
  unfolding example_cart by (simp add: example_state_def example_pen_def example_ids)

lemma example_checkout:
  "post_checkout example_env example_state (Some example_token) =
     (Inr (Response 200 (JOrder example_order)),
      example_state\<lparr>orders := [example_order], carts := [7 \<mapsto> []]\<rparr>)"
proof -
  have c: "cart_of example_state (tok_id \<lparr>tok_id = 7, tok_role = ''customer''\<rparr>) \<noteq> []"
    by (simp add: example_cart)
  have wf: "\<forall>i \<in> set (cart_of example_state (tok_id \<lparr>tok_id = 7, tok_role = ''customer''\<rparr>)).
              object_id example_env (productId i)"
    using example_cart_ids by simp
  have up: "order_store_up example_env" by (simp add: example_env_def)
  have o: "orders example_state = []" "carts example_state 7 \<noteq> None"
    by (simp_all add: example_state_def)
  show ?thesis
    unfolding post_checkout_up [OF example_auth c wf up]
    by (simp add: example_lines example_order_def o) (simp add: example_state_def)
qed

subsection \<open>Atomicity with respect to the cart\<close>

text \<open>
  C1. A checkout by an authenticated user with a non-empty cart whose lookups all return
  reaches the write to the Order Store. When the write succeeds, the handler answers with
  the created order, the order is the one appended to the store, the user's cart is empty
  afterwards and nothing else has changed. When the write fails, the handler ends with
  \<^verbatim>\<open>PersistenceError\<close> and the whole state, the cart included, is as it was: the
  cart is cleared only after the write. A lookup that is rejected ends the handler before
  the write, with the state as it was. So in every case the state is either unchanged, or
  has the order added and the cart emptied.
\<close>

theorem checkout_atomic:
  assumes "authenticate e hdr = Inr u"
  shows "(cart_of st (tok_id u) \<noteq> [] \<and>
          (\<forall>i \<in> set (cart_of st (tok_id u)). object_id e (productId i)) \<and>
          order_store_up e \<longrightarrow>
            (\<exists>ord st'. post_checkout e st hdr = (Inr (Response 200 (JOrder ord)), st') \<and>
               orders st' = orders st @ [ord] \<and>
               cart_of st' (tok_id u) = [] \<and>
               (\<forall>v. v \<noteq> tok_id u \<longrightarrow> carts st' v = carts st v) \<and>
               users st' = users st \<and> products st' = products st)) \<and>
         (cart_of st (tok_id u) \<noteq> [] \<and>
          (\<forall>i \<in> set (cart_of st (tok_id u)). object_id e (productId i)) \<and>
          \<not> order_store_up e \<longrightarrow>
            post_checkout e st hdr = (Inl PersistenceError, st)) \<and>
         (cart_of st (tok_id u) \<noteq> [] \<and>
          \<not> (\<forall>i \<in> set (cart_of st (tok_id u)). object_id e (productId i)) \<longrightarrow>
            post_checkout e st hdr = (Inl CastError, st)) \<and>
         (snd (post_checkout e st hdr) = st \<or>
            (\<exists>ord. post_checkout e st hdr =
               (Inr (Response 200 (JOrder ord)),
                st\<lparr>orders := orders st @ [ord], carts := (carts st)(tok_id u \<mapsto> [])\<rparr>)))"
proof (intro conjI impI)
  assume a: "cart_of st (tok_id u) \<noteq> [] \<and>
             (\<forall>i \<in> set (cart_of st (tok_id u)). object_id e (productId i)) \<and> order_store_up e"
  then have c: "cart_of st (tok_id u) \<noteq> []"
    and wf: "\<forall>i \<in> set (cart_of st (tok_id u)). object_id e (productId i)"
    and up: "order_store_up e"
    by simp_all
  show "\<exists>ord st'. post_checkout e st hdr = (Inr (Response 200 (JOrder ord)), st') \<and>
               orders st' = orders st @ [ord] \<and>
               cart_of st' (tok_id u) = [] \<and>
               (\<forall>v. v \<noteq> tok_id u \<longrightarrow> carts st' v = carts st v) \<and>
               users st' = users st \<and> products st' = products st"
    unfolding post_checkout_up [OF assms c wf up] by (simp add: cart_of_def)
next
  assume "cart_of st (tok_id u) \<noteq> [] \<and>
          (\<forall>i \<in> set (cart_of st (tok_id u)). object_id e (productId i)) \<and> \<not> order_store_up e"
  then show "post_checkout e st hdr = (Inl PersistenceError, st)"
    using assms by (simp add: post_checkout_down)
next
  assume a: "cart_of st (tok_id u) \<noteq> [] \<and>
          \<not> (\<forall>i \<in> set (cart_of st (tok_id u)). object_id e (productId i))"
  from a have c: "cart_of st (tok_id u) \<noteq> []" by (rule conjunct1)
  from a have bad: "\<not> (\<forall>i \<in> set (cart_of st (tok_id u)). object_id e (productId i))"
    by (rule conjunct2)
  show "post_checkout e st hdr = (Inl CastError, st)"
    by (rule post_checkout_cast [OF assms c bad])
next
  show "snd (post_checkout e st hdr) = st \<or>
            (\<exists>ord. post_checkout e st hdr =
               (Inr (Response 200 (JOrder ord)),
                st\<lparr>orders := orders st @ [ord], carts := (carts st)(tok_id u \<mapsto> [])\<rparr>))"
  proof (cases "cart_of st (tok_id u) = []")
    case True
    then show ?thesis using assms by (simp add: post_checkout_def)
  next
    case False
    show ?thesis
    proof (cases "\<forall>i \<in> set (cart_of st (tok_id u)). object_id e (productId i)")
      case malformed: False
      from post_checkout_cast [OF assms False malformed] show ?thesis by simp
    next
      case wf: True
      show ?thesis
      proof (cases "order_store_up e")
        case True
        from post_checkout_up [OF assms False wf True] show ?thesis by blast
      next
        case down: False
        from post_checkout_down [OF assms False wf down] show ?thesis by simp
      qed
    qed
  qed
qed

theorem checkout_atomic_witness:
  "post_checkout (example_env\<lparr>order_store_up := False\<rparr>) example_state (Some example_token) =
     (Inl PersistenceError, example_state) \<and>
   cart_of example_state 7 \<noteq> [] \<and>
   (\<exists>ord st'. post_checkout example_env example_state (Some example_token) =
       (Inr (Response 200 (JOrder ord)), st') \<and>
      orders st' = [ord] \<and> cart_of st' 7 = []) \<and>
   post_checkout example_env example_state_malformed (Some example_token) =
     (Inl CastError, example_state_malformed)"
proof -
  have a: "authenticate (example_env\<lparr>order_store_up := False\<rparr>) (Some example_token) =
             Inr \<lparr>tok_id = 7, tok_role = ''customer''\<rparr>"
    by (simp add: authenticate_def example_env_def example_token_def)
  have c: "cart_of example_state (tok_id \<lparr>tok_id = 7, tok_role = ''customer''\<rparr>) \<noteq> []"
    by (simp add: example_cart)
  have wf: "\<forall>i \<in> set (cart_of example_state (tok_id \<lparr>tok_id = 7, tok_role = ''customer''\<rparr>)).
              object_id example_env (productId i)"
    using example_cart_ids by simp
  have wf': "\<forall>i \<in> set (cart_of example_state (tok_id \<lparr>tok_id = 7, tok_role = ''customer''\<rparr>)).
              object_id (example_env\<lparr>order_store_up := False\<rparr>) (productId i)"
    using example_cart_ids by simp
  have c': "cart_of example_state_malformed (tok_id \<lparr>tok_id = 7, tok_role = ''customer''\<rparr>) \<noteq> []"
    by (simp add: example_cart_malformed)
  have bad: "\<not> (\<forall>i \<in> set (cart_of example_state_malformed
                 (tok_id \<lparr>tok_id = 7, tok_role = ''customer''\<rparr>)).
              object_id example_env (productId i))"
    by (simp add: example_cart_malformed example_env_def example_ids)
  have up: "order_store_up example_env"
    and down: "\<not> order_store_up (example_env\<lparr>order_store_up := False\<rparr>)"
    by (simp_all add: example_env_def)
  have o: "orders example_state = []" by (simp add: example_state_def)
  from checkout_atomic [OF a, of example_state] checkout_atomic [OF example_auth, of example_state]
    checkout_atomic [OF example_auth, of example_state_malformed]
    c wf wf' c' bad up down o
  show ?thesis by simp blast
qed

subsection \<open>The empty cart\<close>

text \<open>
  C4. A checkout by a user whose cart has no entry is answered with status 400 and the
  message \<^verbatim>\<open>Empty cart\<close>, and the state is unchanged: no order is written and the
  cart stays empty.
\<close>

theorem checkout_empty_cart:
  assumes "authenticate e hdr = Inr u" and "cart_of st (tok_id u) = []"
  shows "post_checkout e st hdr = (Inr (Response 400 (Message ''Empty cart'')), st)"
  using assms by (simp add: post_checkout_def)

theorem checkout_empty_cart_witness:
  "post_checkout example_env (example_state\<lparr>carts := Map.empty\<rparr>) (Some example_token) =
     (Inr (Response 400 (Message ''Empty cart'')), example_state\<lparr>carts := Map.empty\<rparr>)"
proof -
  have c: "cart_of (example_state\<lparr>carts := Map.empty\<rparr>)
             (tok_id \<lparr>tok_id = 7, tok_role = ''customer''\<rparr>) = []"
    by (simp add: cart_of_def)
  show ?thesis by (rule checkout_empty_cart [OF example_auth c])
qed

subsection \<open>The total of an order\<close>

text \<open>
  C2. The order of a successful checkout has as its total the sum over its items of
  quantity times price at purchase, each item's price at purchase is the price of the
  product that the lookup of its id in the catalog gives, and the order is in the store.
\<close>

theorem checkout_total:
  assumes "post_checkout e st hdr = (Inr (Response 200 (JOrder ord)), st')"
  shows "total ord = (\<Sum>it\<leftarrow>items ord. quantity it * priceAtPurchase it) \<and>
         (\<forall>it \<in> set (items ord). \<exists>doc. findById e (products st) (productId it) = Inr (Some doc) \<and>
             priceAtPurchase it = price doc) \<and>
         ord \<in> set (orders st')"
proof -
  from post_checkout_success [OF assms] obtain u where
    u: "authenticate e hdr = Inr u" "cart_of st (tok_id u) \<noteq> []"
       "\<forall>i \<in> set (cart_of st (tok_id u)). object_id e (productId i)" "order_store_up e"
    by blast
  let ?lines = "order_lines (products st) (cart_of st (tok_id u))"
  from post_checkout_up [OF u] assms
  have ord: "ord = \<lparr>order_id = Suc (length (orders st)), userId = tok_id u,
                     total = (\<Sum>it\<leftarrow>?lines. quantity it * priceAtPurchase it), items = ?lines\<rparr>"
    and st': "st' = st\<lparr>orders := orders st @ [ord], carts := (carts st)(tok_id u \<mapsto> [])\<rparr>"
    by simp_all
  have "total ord = (\<Sum>it\<leftarrow>items ord. quantity it * priceAtPurchase it)"
    unfolding ord by simp
  moreover have "\<forall>it \<in> set (items ord).
      \<exists>doc. findById e (products st) (productId it) = Inr (Some doc) \<and> priceAtPurchase it = price doc"
  proof
    fix it assume "it \<in> set (items ord)"
    then have "it \<in> set ?lines" by (simp add: ord)
    from order_lines_prices [OF this] obtain i doc where
      i: "i \<in> set (cart_of st (tok_id u))"
        "find (\<lambda>p. product_id p = productId i) (products st) = Some doc"
        "productId it = productId i" "priceAtPurchase it = price doc"
      by blast
    have "object_id e (productId it)" using u(3) i(1,3) by simp
    then show "\<exists>doc. findById e (products st) (productId it) = Inr (Some doc) \<and>
                 priceAtPurchase it = price doc"
      using i by (simp add: findById_def)
  qed
  moreover have "ord \<in> set (orders st')" by (simp add: st')
  ultimately show ?thesis by blast
qed

theorem checkout_total_witness:
  "post_checkout example_env example_state (Some example_token) =
     (Inr (Response 200 (JOrder example_order)),
      example_state\<lparr>orders := [example_order], carts := [7 \<mapsto> []]\<rparr>) \<and>
   total example_order = 5 \<and>
   (\<Sum>it\<leftarrow>items example_order. quantity it * priceAtPurchase it) = 5"
  using checkout_total [OF example_checkout] example_checkout
  by (simp add: example_order_def)

subsection \<open>Entries that do not resolve\<close>





section \<open>Cart: properties\<close>

subsection \<open>Adding and removing\<close>

text \<open>
  Finding the entry and then changing it in place, or appending when there is none, is one
  pass over the list.
\<close>

lemma cart_add_Nil: "cart_add [] p q = [\<lparr>productId = p, quantity = q\<rparr>]"
  by (simp add: cart_add_def)

lemma cart_add_Cons:
  "cart_add (i # cart) p q =
     (if productId i = p then i\<lparr>quantity := quantity i + q\<rparr> # cart else i # cart_add cart p q)"
  by (simp add: cart_add_def split: option.splits)

lemma set_ids_cart_add:
  "productId ` set (cart_add cart p q) = insert p (productId ` set cart)"
  by (induction cart) (auto simp: cart_add_Nil cart_add_Cons)

lemma distinct_cart_add:
  "distinct (map productId cart) \<Longrightarrow> distinct (map productId (cart_add cart p q))"
proof (induction cart)
  case Nil
  show ?case by (simp add: cart_add_Nil)
next
  case (Cons i cart)
  show ?case
  proof (cases "productId i = p")
    case True
    then show ?thesis using Cons.prems by (simp add: cart_add_Cons)
  next
    case False
    have "productId i \<notin> productId ` set (cart_add cart p q)"
      using False Cons.prems by (simp add: set_ids_cart_add)
    then show ?thesis using False Cons by (simp add: cart_add_Cons)
  qed
qed

lemma qty_of_cart_add:
  "qty_of (cart_add cart p q) =
     (qty_of cart)(p \<mapsto> (case qty_of cart p of None \<Rightarrow> q | Some x \<Rightarrow> x + q))"
  by (induction cart) (auto simp: cart_add_Nil cart_add_Cons qty_of_def)

lemma qty_of_cart_remove: "qty_of (cart_remove cart p) = (qty_of cart)(p := None)"
  by (induction cart) (auto simp: cart_remove_def qty_of_def)

lemma distinct_cart_remove:
  "distinct (map productId cart) \<Longrightarrow> distinct (map productId (cart_remove cart p))"
  by (simp add: cart_remove_def distinct_map_filter)

lemma qty_of_entry:
  assumes "distinct (map productId cart)" and "i \<in> set cart"
  shows "qty_of cart (productId i) = Some (quantity i)"
proof -
  have "distinct (map fst (map (\<lambda>i. (productId i, quantity i)) cart))"
    using assms(1) by (simp add: comp_def)
  moreover have "(productId i, quantity i) \<in> set (map (\<lambda>i. (productId i, quantity i)) cart)"
    using assms(2) by auto
  ultimately show ?thesis unfolding qty_of_def by (rule map_of_is_SomeI)
qed

lemma qty_of_None: "qty_of cart p = None \<longleftrightarrow> \<not> (\<exists>i \<in> set cart. productId i = p)"
  by (auto simp: qty_of_def map_of_eq_None_iff image_iff)

lemma since_last_removal_snoc:
  "since_last_removal p (ops @ [op]) =
     (if op = Remove p then [] else since_last_removal p ops @ [op])"
  by (simp add: since_last_removal_def)

lemma adds_of_append: "adds_of p (xs @ ys) = adds_of p xs @ adds_of p ys"
  by (induction p xs rule: adds_of.induct) auto

lemma expected_qty_Nil: "expected_qty [] = Map.empty"
  by (simp add: expected_qty_def since_last_removal_def fun_eq_iff)

lemma expected_qty_Add:
  "expected_qty (ops @ [Add p q]) =
     (expected_qty ops)(p \<mapsto> (case expected_qty ops p of None \<Rightarrow> q | Some x \<Rightarrow> x + q))"
  by (auto simp: expected_qty_def since_last_removal_snoc adds_of_append fun_eq_iff)

lemma expected_qty_Remove:
  "expected_qty (ops @ [Remove p]) = (expected_qty ops)(p := None)"
  by (auto simp: expected_qty_def since_last_removal_snoc adds_of_append fun_eq_iff)

lemma cart_of_post_cart:
  "authenticate e hdr = Inr u \<Longrightarrow>
     cart_of (snd (post_cart e st hdr p q)) (tok_id u) = cart_add (cart_of st (tok_id u)) p q"
  by (simp add: post_cart_def cart_of_def Let_def)

lemma cart_of_delete_cart:
  "authenticate e hdr = Inr u \<Longrightarrow>
     cart_of (snd (delete_cart e st hdr p)) (tok_id u) = cart_remove (cart_of st (tok_id u)) p"
  by (simp add: delete_cart_def cart_of_def Let_def)

lemma run_cart_invariant:
  assumes "authenticate e hdr = Inr u" and "cart_of st (tok_id u) = []"
  shows "distinct (map productId (cart_of (run_cart e hdr st ops) (tok_id u))) \<and>
         qty_of (cart_of (run_cart e hdr st ops) (tok_id u)) = expected_qty ops"
proof (induction ops rule: rev_induct)
  case Nil
  show ?case using assms(2) by (simp add: run_cart_def qty_of_def expected_qty_Nil)
next
  case (snoc op ops)
  let ?st = "run_cart e hdr st ops"
  have step: "run_cart e hdr st (ops @ [x]) = cart_request e hdr ?st x" for x
    by (simp add: run_cart_def)
  show ?case
  proof (cases op)
    case (Add p q)
    have "cart_of (run_cart e hdr st (ops @ [op])) (tok_id u) = cart_add (cart_of ?st (tok_id u)) p q"
      using assms(1) by (simp add: step Add cart_of_post_cart)
    then show ?thesis
      using snoc Add by (simp add: distinct_cart_add qty_of_cart_add expected_qty_Add)
  next
    case (Remove p)
    have "cart_of (run_cart e hdr st (ops @ [op])) (tok_id u) = cart_remove (cart_of ?st (tok_id u)) p"
      using assms(1) by (simp add: step Remove cart_of_delete_cart)
    then show ?thesis
      using snoc Remove by (simp add: distinct_cart_remove qty_of_cart_remove expected_qty_Remove)
  qed
qed

text \<open>
  C3. After any run of adds and removes by one user on a cart that starts empty, no two
  entries have the same product id, the quantity of each entry is the sum of the
  quantities of the adds of its product since the last removal of that product, and a
  product has an entry exactly when it was added since its last removal.
\<close>

theorem cart_quantity_is_sum_of_adds:
  assumes "authenticate e hdr = Inr u" and "cart_of st (tok_id u) = []"
  shows "distinct (map productId (cart_of (run_cart e hdr st ops) (tok_id u))) \<and>
         (\<forall>i \<in> set (cart_of (run_cart e hdr st ops) (tok_id u)).
            quantity i = sum_list (adds_of (productId i) (since_last_removal (productId i) ops))) \<and>
         (\<forall>p. (\<exists>i \<in> set (cart_of (run_cart e hdr st ops) (tok_id u)). productId i = p) \<longleftrightarrow>
            adds_of p (since_last_removal p ops) \<noteq> [])"
proof -
  let ?cart = "cart_of (run_cart e hdr st ops) (tok_id u)"
  from run_cart_invariant [OF assms, of ops]
  have d: "distinct (map productId ?cart)" and q: "qty_of ?cart = expected_qty ops"
    by simp_all
  have sums: "\<forall>i \<in> set ?cart.
      quantity i = sum_list (adds_of (productId i) (since_last_removal (productId i) ops))"
  proof
    fix i assume "i \<in> set ?cart"
    from qty_of_entry [OF d this] have "expected_qty ops (productId i) = Some (quantity i)"
      by (simp add: q)
    then show "quantity i = sum_list (adds_of (productId i) (since_last_removal (productId i) ops))"
      by (simp add: expected_qty_def split: if_splits)
  qed
  have present: "\<forall>p. (\<exists>i \<in> set ?cart. productId i = p) \<longleftrightarrow>
      adds_of p (since_last_removal p ops) \<noteq> []"
  proof
    fix p
    have "(\<exists>i \<in> set ?cart. productId i = p) \<longleftrightarrow> qty_of ?cart p \<noteq> None"
      by (simp add: qty_of_None)
    also have "\<dots> \<longleftrightarrow> adds_of p (since_last_removal p ops) \<noteq> []"
      by (simp add: q expected_qty_def)
    finally show "(\<exists>i \<in> set ?cart. productId i = p) \<longleftrightarrow>
      adds_of p (since_last_removal p ops) \<noteq> []" .
  qed
  from d sums present show ?thesis by blast
qed

lemma example_run:
  "cart_of (run_cart example_env (Some example_token) (example_state\<lparr>carts := Map.empty\<rparr>)
      example_ops) 7 =
   [\<lparr>productId = ''a'', quantity = 6\<rparr>, \<lparr>productId = ''b'', quantity = 4\<rparr>]"
  by (simp add: run_cart_def example_ops_def post_cart_def delete_cart_def authenticate_def
      example_env_def example_token_def cart_of_def cart_add_def cart_remove_def Let_def)

theorem cart_quantity_is_sum_of_adds_witness:
  "cart_of (run_cart example_env (Some example_token) (example_state\<lparr>carts := Map.empty\<rparr>)
      example_ops) 7 =
     [\<lparr>productId = ''a'', quantity = 6\<rparr>, \<lparr>productId = ''b'', quantity = 4\<rparr>] \<and>
   sum_list (adds_of ''a'' (since_last_removal ''a'' example_ops)) = 6 \<and>
   sum_list (adds_of ''b'' (since_last_removal ''b'' example_ops)) = 4"
proof -
  have c: "cart_of (example_state\<lparr>carts := Map.empty\<rparr>)
             (tok_id \<lparr>tok_id = 7, tok_role = ''customer''\<rparr>) = []"
    by (simp add: cart_of_def)
  from cart_quantity_is_sum_of_adds [OF example_auth c, of example_ops] example_run
  show ?thesis by simp
qed

subsection \<open>The sign of a quantity\<close>

lemma cart_add_positive:
  assumes "\<forall>i \<in> set cart. 0 < quantity i" and "0 < q"
  shows "\<forall>i \<in> set (cart_add cart p q). 0 < quantity i"
  using assms by (induction cart) (auto simp: cart_add_Nil cart_add_Cons)

lemma carts_post_register: "carts (snd (post_auth_register st nm em password r)) = carts st"
  by (simp add: post_auth_register_def Let_def split: option.splits prod.splits)

lemma carts_post_products: "carts (snd (post_products e st hdr oid b)) = carts st"
  by (simp add: post_products_def Let_def split: sum.splits)

lemma carts_put_products: "carts (snd (put_products e st hdr i b)) = carts st"
  by (simp add: put_products_def split: sum.splits prod.splits)

lemma carts_delete_products: "carts (snd (delete_products e st hdr i)) = carts st"
  by (simp add: delete_products_def split: sum.splits)

lemma carts_positive_cong: "carts st' = carts st \<Longrightarrow> carts_positive st' = carts_positive st"
  by (simp add: carts_positive_def cart_of_def)

lemma post_cart_positive:
  assumes "carts_positive st" and "0 < q"
  shows "carts_positive (snd (post_cart e st hdr p q))"
proof (cases "authenticate e hdr")
  case (Inl denied)
  then show ?thesis using assms(1) by (simp add: post_cart_def)
next
  case (Inr u)
  have "\<forall>i \<in> set (cart_add (cart_of st (tok_id u)) p q). 0 < quantity i"
    using assms by (intro cart_add_positive) (simp_all add: carts_positive_def)
  then show ?thesis
    using Inr assms(1) by (simp add: post_cart_def carts_positive_def cart_of_def Let_def)
qed

lemma delete_cart_positive:
  assumes "carts_positive st"
  shows "carts_positive (snd (delete_cart e st hdr p))"
proof (cases "authenticate e hdr")
  case (Inl denied)
  then show ?thesis using assms by (simp add: delete_cart_def)
next
  case (Inr u)
  have "\<forall>i \<in> set (cart_remove (cart_of st (tok_id u)) p). 0 < quantity i"
    using assms by (auto simp: carts_positive_def cart_remove_def)
  then show ?thesis
    using Inr assms by (simp add: delete_cart_def carts_positive_def cart_of_def Let_def)
qed

lemma post_checkout_positive:
  assumes "carts_positive st"
  shows "carts_positive (snd (post_checkout e st hdr))"
  using assms
  by (auto simp: post_checkout_def prisma_order_create_def carts_positive_def cart_of_def Let_def
      split: sum.splits prod.splits if_splits)

lemma handle_positive:
  assumes "carts_positive st" and "positive_add (snd er)"
  shows "carts_positive (handle st er)"
proof (cases er)
  case (Pair e r)
  show ?thesis
  proof (cases r)
    case (PostCart hdr p q)
    then show ?thesis using assms Pair by (simp add: post_cart_positive)
  next
    case (DeleteCart hdr p)
    then show ?thesis using assms Pair by (simp add: delete_cart_positive)
  next
    case (PostCheckout hdr)
    then show ?thesis using assms Pair by (simp add: post_checkout_positive)
  next
    case (Register nm em password rf)
    then show ?thesis
      using assms(1) Pair carts_positive_cong [OF carts_post_register] by simp
  next
    case (PostProducts hdr oid b)
    then show ?thesis
      using assms(1) Pair carts_positive_cong [OF carts_post_products] by simp
  next
    case (PutProducts hdr i b)
    then show ?thesis
      using assms(1) Pair carts_positive_cong [OF carts_put_products] by simp
  next
    case (DeleteProducts hdr i)
    then show ?thesis
      using assms(1) Pair carts_positive_cong [OF carts_delete_products] by simp
  qed
qed

text \<open>
  C7, as the handlers have it. The add handler stores the quantity it is given without
  looking at it. When every add request of a run carries a positive quantity, every entry
  of every cart is positive in the state the run reaches.
\<close>

theorem cart_quantities_positive:
  assumes "\<forall>er \<in> set reqs. positive_add (snd er)"
  shows "\<forall>i \<in> set (cart_of (serve reqs) u). 0 < quantity i"
proof -
  have "carts_positive (foldl handle initial_state reqs)"
    using assms
  proof (induction reqs rule: rev_induct)
    case Nil
    show ?case by (simp add: carts_positive_def initial_state_def cart_of_def)
  next
    case (snoc er reqs)
    then show ?case by (simp add: handle_positive)
  qed
  then show ?thesis by (simp add: serve_def carts_positive_def)
qed

theorem cart_quantities_positive_witness:
  "cart_of (serve [(example_env, PostCart (Some example_token) ''p1'' 2),
                   (example_env, PostCart (Some example_token) ''p1'' 3)]) 7 =
     [\<lparr>productId = ''p1'', quantity = 5\<rparr>] \<and>
   (0::real) < 5"
proof -
  let ?reqs = "[(example_env, PostCart (Some example_token) ''p1'' 2),
                (example_env, PostCart (Some example_token) ''p1'' 3)]"
  have pos: "\<forall>er \<in> set ?reqs. positive_add (snd er)" by simp
  have run: "cart_of (serve ?reqs) 7 = [\<lparr>productId = ''p1'', quantity = 5\<rparr>]"
    by (simp add: serve_def initial_state_def post_cart_def authenticate_def example_env_def
        example_token_def cart_of_def cart_add_def Let_def)
  from cart_quantities_positive [OF pos, of 7] run show ?thesis by simp
qed

text \<open>
  C7 as stated does not hold: one add of a new product with the quantity -2 leaves an
  entry with the quantity -2 in the cart.
\<close>

theorem cart_quantity_not_checked:
  "cart_of (serve [(example_env, PostCart (Some example_token) ''p1'' (- 2))]) 7 =
     [\<lparr>productId = ''p1'', quantity = - 2\<rparr>] \<and>
   \<not> (0::real) < - 2"
  by (simp add: serve_def initial_state_def post_cart_def authenticate_def example_env_def
      example_token_def cart_of_def cart_add_def Let_def)

section \<open>Registration and login: properties\<close>

lemma register_fresh:
  assumes "\<not> (\<exists>v \<in> set (users st). email v = em)"
  shows "post_auth_register st nm em password r =
           (Response 200 (JUser
              \<lparr>user_id = Suc (length (users st)), user_name = nm, email = em,
               passwordHash = bcrypt_hash password, role = or_else r ''customer''\<rparr>),
            st\<lparr>users := users st @
               [\<lparr>user_id = Suc (length (users st)), user_name = nm, email = em,
                 passwordHash = bcrypt_hash password, role = or_else r ''customer''\<rparr>]\<rparr>)"
  using assms by (simp add: post_auth_register_def prisma_user_create_def Let_def)

lemma find_append_fresh:
  assumes "\<not> (\<exists>v \<in> set us. P v)" and "P u"
  shows "find P (us @ [u]) = Some u"
  using assms by (induction us) auto

lemma login_ok:
  assumes "prisma_user_findUnique (users st) em = Some u"
    and "bcrypt_compare password (passwordHash u)"
  shows "post_auth_login e st em password =
           Response 200 (JLogin (Token (jwt_secret e) \<lparr>tok_id = user_id u, tok_role = role u\<rparr>
                                  (now e + 3600)) u)"
  using assms by (simp add: post_auth_login_def jwt_sign_def)

lemma authenticate_signed:
  assumes "jwt_secret e' = k" and "now e' < expires"
  shows "authenticate e' (Some (Token k p expires)) = Inr p"
  using assms by (simp add: authenticate_def)

lemma admin_role_checks:
  assumes "authenticate e hdr = Inr u" and "tok_role u = ''admin''"
  shows "status (fst (post_products e st hdr oid b)) = 200"
    and "fst (put_products e st hdr i patch) =
           (if object_id e i
            then Inr (Response 200 (case fst (update_doc (products st) i patch) of
                                      None \<Rightarrow> JNull | Some doc \<Rightarrow> JProduct doc))
            else Inl CastError)"
    and "fst (delete_products e st hdr i) =
           (if object_id e i then Inr (Response 200 (Message ''Deleted'')) else Inl CastError)"
  using assms
  by (simp_all add: post_products_def put_products_def delete_products_def Let_def
      findByIdAndUpdate_def findByIdAndDelete_def split: prod.splits)

text \<open>
  C6, as the handler has it. A registration with an unused email creates the user with the
  role of the request body when that role is a non-empty string, and with the role
  customer when the body has no role or an empty one. Registration asks for no token. So
  anyone can register with the role admin, log in, and with the token of that login, for
  the hour it is valid, get past the role check of each of the three product routes that
  are for administrators only: the create route answers with status 200, and the update
  and the delete route go on to the store, which answers (status 200) for an id it can
  cast and rejects the query for one it cannot.
\<close>

theorem register_takes_role:
  assumes "\<not> (\<exists>v \<in> set (users st). email v = em)"
  shows "\<exists>u. post_auth_register st nm em password r =
               (Response 200 (JUser u), st\<lparr>users := users st @ [u]\<rparr>) \<and>
             role u = (case r of None \<Rightarrow> ''customer''
                       | Some s \<Rightarrow> if s = [] then ''customer'' else s) \<and>
             (r = Some ''admin'' \<longrightarrow>
                (\<exists>tok. post_auth_login e (st\<lparr>users := users st @ [u]\<rparr>) em password =
                         Response 200 (JLogin tok u) \<and>
                   (\<forall>e' st' oid b i patch.
                      jwt_secret e' = jwt_secret e \<and> now e' < now e + 3600 \<longrightarrow>
                        status (fst (post_products e' st' (Some tok) oid b)) = 200 \<and>
                        fst (put_products e' st' (Some tok) i patch) =
                          (if object_id e' i
                           then Inr (Response 200
                                  (case fst (update_doc (products st') i patch) of
                                     None \<Rightarrow> JNull | Some doc \<Rightarrow> JProduct doc))
                           else Inl CastError) \<and>
                        fst (delete_products e' st' (Some tok) i) =
                          (if object_id e' i then Inr (Response 200 (Message ''Deleted''))
                           else Inl CastError))))"
proof -
  let ?u = "\<lparr>user_id = Suc (length (users st)), user_name = nm, email = em,
             passwordHash = bcrypt_hash password, role = or_else r ''customer''\<rparr>"
  let ?st = "st\<lparr>users := users st @ [?u]\<rparr>"
  let ?tok = "Token (jwt_secret e) \<lparr>tok_id = user_id ?u, tok_role = role ?u\<rparr> (now e + 3600)"
  have reg: "post_auth_register st nm em password r = (Response 200 (JUser ?u), ?st)"
    by (rule register_fresh [OF assms])
  have rl: "role ?u = (case r of None \<Rightarrow> ''customer''
                       | Some s \<Rightarrow> if s = [] then ''customer'' else s)"
    by (simp add: or_else_def split: option.splits)
  have found: "prisma_user_findUnique (users ?st) em = Some ?u"
    using assms by (simp add: prisma_user_findUnique_def find_append_fresh)
  have login: "post_auth_login e ?st em password = Response 200 (JLogin ?tok ?u)"
    by (rule login_ok [OF found]) (simp add: bcrypt_hash_def)
  have checks: "status (fst (post_products e' st' (Some ?tok) oid b)) = 200 \<and>
               fst (put_products e' st' (Some ?tok) i patch) =
                 (if object_id e' i
                  then Inr (Response 200
                         (case fst (update_doc (products st') i patch) of
                            None \<Rightarrow> JNull | Some doc \<Rightarrow> JProduct doc))
                  else Inl CastError) \<and>
               fst (delete_products e' st' (Some ?tok) i) =
                 (if object_id e' i then Inr (Response 200 (Message ''Deleted''))
                  else Inl CastError)"
    if adm: "r = Some ''admin''" and e': "jwt_secret e' = jwt_secret e \<and> now e' < now e + 3600"
    for e' st' oid b i patch
  proof -
    have a: "authenticate e' (Some ?tok) = Inr \<lparr>tok_id = user_id ?u, tok_role = role ?u\<rparr>"
      using e' by (intro authenticate_signed) simp_all
    have r: "tok_role \<lparr>tok_id = user_id ?u, tok_role = role ?u\<rparr> = ''admin''"
      using adm by (simp add: or_else_def)
    from admin_role_checks [OF a r] show ?thesis by blast
  qed
  from reg rl login checks show ?thesis by blast
qed

theorem register_takes_role_witness:
  "post_auth_register initial_state ''Eve'' ''eve@example.org'' ''pw'' (Some ''admin'') =
     (Response 200 (JUser example_admin), initial_state\<lparr>users := [example_admin]\<rparr>) \<and>
   post_auth_login example_env (initial_state\<lparr>users := [example_admin]\<rparr>) ''eve@example.org'' ''pw'' =
     Response 200 (JLogin example_admin_token example_admin) \<and>
   status (fst (post_products example_env example_state (Some example_admin_token) absent_id
                  example_body)) = 200 \<and>
   fst (delete_products example_env example_state (Some example_admin_token) pen_id) =
     Inr (Response 200 (Message ''Deleted''))"
proof -
  have fresh: "\<not> (\<exists>v \<in> set (users initial_state). email v = ''eve@example.org'')"
    by (simp add: initial_state_def)
  have reg: "post_auth_register initial_state ''Eve'' ''eve@example.org'' ''pw'' (Some ''admin'') =
     (Response 200 (JUser example_admin), initial_state\<lparr>users := [example_admin]\<rparr>)"
    by (simp add: post_auth_register_def prisma_user_create_def initial_state_def
        example_admin_def bcrypt_hash_def or_else_def Let_def)
  have login: "post_auth_login example_env (initial_state\<lparr>users := [example_admin]\<rparr>)
       ''eve@example.org'' ''pw'' = Response 200 (JLogin example_admin_token example_admin)"
    by (simp add: post_auth_login_def prisma_user_findUnique_def example_admin_def
        example_admin_token_def example_env_def jwt_sign_def)
  have posted: "status (fst (post_products example_env example_state (Some example_admin_token)
       absent_id example_body)) = 200"
    by (simp add: post_products_def authenticate_def example_env_def example_admin_token_def
        Let_def)
  have deleted: "fst (delete_products example_env example_state (Some example_admin_token) pen_id) =
     Inr (Response 200 (Message ''Deleted''))"
    by (simp add: delete_products_def findByIdAndDelete_def authenticate_def example_env_def
        example_admin_token_def example_ids)
  from register_takes_role [OF fresh, of "''Eve''" "''pw''" "Some ''admin''" example_env]
    reg login posted deleted
  show ?thesis by simp
qed

text \<open>
  C6 as stated does not hold for every role string: a body that supplies the empty string
  as its role has the role field, and the user is created with the role customer.
\<close>

theorem register_empty_role:
  "post_auth_register initial_state ''Eve'' ''eve@example.org'' ''pw'' (Some '''') =
     (Response 200 (JUser (example_admin\<lparr>role := ''customer''\<rparr>)),
      initial_state\<lparr>users := [example_admin\<lparr>role := ''customer''\<rparr>]\<rparr>) \<and>
   role (example_admin\<lparr>role := ''customer''\<rparr>) \<noteq> ''''"
  by (simp add: post_auth_register_def prisma_user_create_def initial_state_def
      example_admin_def bcrypt_hash_def or_else_def Let_def)

text \<open>
  C10. A successful registration answers with the user record as it was stored, whose
  password hash is the bcrypt hash of the password sent; a successful login answers with a
  token and the stored user record of that email, password hash included.
\<close>

theorem responses_carry_password_hash:
  "(\<not> (\<exists>v \<in> set (users st). email v = em) \<longrightarrow>
      (\<exists>u. post_auth_register st nm em password r =
              (Response 200 (JUser u), st\<lparr>users := users st @ [u]\<rparr>) \<and>
            passwordHash u = bcrypt_hash password)) \<and>
   (\<forall>u. prisma_user_findUnique (users st) em' = Some u \<and>
         bcrypt_compare password' (passwordHash u) \<longrightarrow>
      (\<exists>tok. post_auth_login e st em' password' = Response 200 (JLogin tok u)) \<and>
      u \<in> set (users st))"
proof (intro conjI impI allI)
  assume "\<not> (\<exists>v \<in> set (users st). email v = em)"
  from register_fresh [OF this, of nm password r]
  show "\<exists>u. post_auth_register st nm em password r =
              (Response 200 (JUser u), st\<lparr>users := users st @ [u]\<rparr>) \<and>
            passwordHash u = bcrypt_hash password"
    by auto
next
  fix u
  assume a: "prisma_user_findUnique (users st) em' = Some u \<and>
             bcrypt_compare password' (passwordHash u)"
  then show "\<exists>tok. post_auth_login e st em' password' = Response 200 (JLogin tok u)"
    using login_ok [of st em' u password' e] by blast
  from a show "u \<in> set (users st)"
    by (auto simp: prisma_user_findUnique_def find_Some_iff in_set_conv_nth)
qed

theorem responses_carry_password_hash_witness:
  "post_auth_register (initial_state\<lparr>users := [example_admin]\<rparr>)
       ''Bob'' ''bob@example.org'' ''pw2'' None =
     (Response 200 (JUser
        \<lparr>user_id = 2, user_name = ''Bob'', email = ''bob@example.org'',
         passwordHash = Hash ''pw2'', role = ''customer''\<rparr>),
      initial_state\<lparr>users :=
        [example_admin,
         \<lparr>user_id = 2, user_name = ''Bob'', email = ''bob@example.org'',
          passwordHash = Hash ''pw2'', role = ''customer''\<rparr>]\<rparr>) \<and>
   post_auth_login example_env (initial_state\<lparr>users := [example_admin]\<rparr>) ''eve@example.org'' ''pw'' =
     Response 200 (JLogin example_admin_token example_admin) \<and>
   passwordHash example_admin = Hash ''pw''"
proof -
  let ?st = "initial_state\<lparr>users := [example_admin]\<rparr>"
  have fresh: "\<not> (\<exists>v \<in> set (users ?st). email v = ''bob@example.org'')"
    by (simp add: example_admin_def)
  have found: "prisma_user_findUnique (users ?st) ''eve@example.org'' = Some example_admin \<and>
               bcrypt_compare ''pw'' (passwordHash example_admin)"
    by (simp add: prisma_user_findUnique_def example_admin_def)
  have reg: "post_auth_register ?st ''Bob'' ''bob@example.org'' ''pw2'' None =
     (Response 200 (JUser
        \<lparr>user_id = 2, user_name = ''Bob'', email = ''bob@example.org'',
         passwordHash = Hash ''pw2'', role = ''customer''\<rparr>),
      initial_state\<lparr>users :=
        [example_admin,
         \<lparr>user_id = 2, user_name = ''Bob'', email = ''bob@example.org'',
          passwordHash = Hash ''pw2'', role = ''customer''\<rparr>]\<rparr>)"
    by (simp add: post_auth_register_def prisma_user_create_def initial_state_def
        example_admin_def bcrypt_hash_def or_else_def Let_def)
  have login: "post_auth_login example_env ?st ''eve@example.org'' ''pw'' =
       Response 200 (JLogin example_admin_token example_admin)"
    by (simp add: post_auth_login_def prisma_user_findUnique_def example_admin_def
        example_admin_token_def example_env_def jwt_sign_def)
  from responses_carry_password_hash
         [of ?st "''bob@example.org''" "''Bob''" "''pw2''" None "''eve@example.org''" "''pw''"
             example_env]
    fresh found reg login
  show ?thesis by (simp add: example_admin_def)
qed

section \<open>Products: properties\<close>

subsection \<open>Update\<close>

lemma product_id_merge: "product_id (merge_product doc b) = product_id doc"
  by (simp add: merge_product_def)

lemma update_doc_missing:
  "find (\<lambda>p. product_id p = i) ps = None \<Longrightarrow> update_doc ps i b = (None, ps)"
  by (induction ps) (auto split: if_splits)

lemma update_doc_found:
  "find (\<lambda>p. product_id p = i) ps = Some doc \<Longrightarrow>
     fst (update_doc ps i b) = Some (merge_product doc b) \<and>
     find (\<lambda>p. product_id p = i) (snd (update_doc ps i b)) = Some (merge_product doc b) \<and>
     (\<forall>j. j \<noteq> i \<longrightarrow>
        find (\<lambda>p. product_id p = j) (snd (update_doc ps i b)) = find (\<lambda>p. product_id p = j) ps)"
proof (induction ps)
  case Nil
  then show ?case by simp
next
  case (Cons p ps)
  show ?case
  proof (cases "product_id p = i")
    case True
    then have "doc = p" using Cons.prems by simp
    then show ?thesis using True by (auto simp: product_id_merge)
  next
    case False
    then have "find (\<lambda>p. product_id p = i) ps = Some doc" using Cons.prems by simp
    from Cons.IH [OF this] False show ?thesis
      by (auto split: prod.splits)
  qed
qed

lemma findById_Some:
  "findById e ps i = Inr r \<longleftrightarrow> object_id e i \<and> find (\<lambda>p. product_id p = i) ps = r"
  by (auto simp: findById_def)

text \<open>
  C8, as the handler has it. For a request with the token of an administrator: when the id
  is in the catalog, the answer is the product after the update, which has each supplied
  field from the request and every other field as before, it is what the catalog holds
  under the id afterwards, and no other id is affected; when the id is one the store can
  cast and the catalog does not have, the answer is status 200 with the body null and the
  state is unchanged; when the id is one the store cannot cast, the query is rejected, the
  handler ends with that error and the state is unchanged.
\<close>

theorem update_merges_or_answers_null:
  assumes "authenticate e hdr = Inr u" and "tok_role u = ''admin''"
  shows "(\<forall>doc. findById e (products st) i = Inr (Some doc) \<longrightarrow>
            (\<exists>ps. put_products e st hdr i b =
                     (Inr (Response 200 (JProduct (merge_product doc b))), st\<lparr>products := ps\<rparr>) \<and>
                   findById e ps i = Inr (Some (merge_product doc b)) \<and>
                   (\<forall>j. j \<noteq> i \<longrightarrow> findById e ps j = findById e (products st) j)) \<and>
            product_id (merge_product doc b) = i \<and>
            sku (merge_product doc b) = (case patch_sku b of None \<Rightarrow> sku doc | Some v \<Rightarrow> v) \<and>
            name (merge_product doc b) = (case patch_name b of None \<Rightarrow> name doc | Some v \<Rightarrow> v) \<and>
            price (merge_product doc b) = (case patch_price b of None \<Rightarrow> price doc | Some v \<Rightarrow> v) \<and>
            category (merge_product doc b) =
              (case patch_category b of None \<Rightarrow> category doc | Some v \<Rightarrow> v) \<and>
            updatedAt (merge_product doc b) =
              (case patch_updatedAt b of None \<Rightarrow> updatedAt doc | Some v \<Rightarrow> v)) \<and>
         (findById e (products st) i = Inr None \<longrightarrow>
            put_products e st hdr i b = (Inr (Response 200 JNull), st)) \<and>
         (\<not> object_id e i \<longrightarrow> put_products e st hdr i b = (Inl CastError, st))"
proof (intro conjI allI impI)
  fix doc assume "findById e (products st) i = Inr (Some doc)"
  then have ok: "object_id e i"
    and found: "find (\<lambda>p. product_id p = i) (products st) = Some doc"
    by (simp_all add: findById_Some)
  let ?r = "update_doc (products st) i b"
  have "put_products e st hdr i b =
          (Inr (Response 200 (JProduct (merge_product doc b))), st\<lparr>products := snd ?r\<rparr>)"
    using assms ok update_doc_found [OF found, of b]
    by (auto simp: put_products_def findByIdAndUpdate_def split: prod.splits)
  moreover have "findById e (snd ?r) i = Inr (Some (merge_product doc b))"
    using ok update_doc_found [OF found, of b] by (simp add: findById_def)
  moreover have "\<forall>j. j \<noteq> i \<longrightarrow> findById e (snd ?r) j = findById e (products st) j"
    using update_doc_found [OF found, of b] by (simp add: findById_def)
  ultimately show "\<exists>ps. put_products e st hdr i b =
                     (Inr (Response 200 (JProduct (merge_product doc b))), st\<lparr>products := ps\<rparr>) \<and>
                   findById e ps i = Inr (Some (merge_product doc b)) \<and>
                   (\<forall>j. j \<noteq> i \<longrightarrow> findById e ps j = findById e (products st) j)"
    by blast
  have "product_id doc = i"
    using found by (auto simp: find_Some_iff)
  then show "product_id (merge_product doc b) = i" by (simp add: product_id_merge)
  show "sku (merge_product doc b) = (case patch_sku b of None \<Rightarrow> sku doc | Some v \<Rightarrow> v)"
    by (simp add: merge_product_def supplied_def)
  show "name (merge_product doc b) = (case patch_name b of None \<Rightarrow> name doc | Some v \<Rightarrow> v)"
    by (simp add: merge_product_def supplied_def)
  show "price (merge_product doc b) = (case patch_price b of None \<Rightarrow> price doc | Some v \<Rightarrow> v)"
    by (simp add: merge_product_def supplied_def)
  show "category (merge_product doc b) =
          (case patch_category b of None \<Rightarrow> category doc | Some v \<Rightarrow> v)"
    by (simp add: merge_product_def supplied_def)
  show "updatedAt (merge_product doc b) =
          (case patch_updatedAt b of None \<Rightarrow> updatedAt doc | Some v \<Rightarrow> v)"
    by (simp add: merge_product_def supplied_def)
next
  assume "findById e (products st) i = Inr None"
  then have "object_id e i" and "find (\<lambda>p. product_id p = i) (products st) = None"
    by (simp_all add: findById_Some)
  then show "put_products e st hdr i b = (Inr (Response 200 JNull), st)"
    using assms by (simp add: put_products_def findByIdAndUpdate_def update_doc_missing)
next
  assume "\<not> object_id e i"
  then show "put_products e st hdr i b = (Inl CastError, st)"
    using assms by (simp add: put_products_def findByIdAndUpdate_def)
qed

lemma example_admin_auth:
  "authenticate example_env (Some example_admin_token) = Inr \<lparr>tok_id = 1, tok_role = ''admin''\<rparr>"
  by (simp add: authenticate_def example_env_def example_admin_token_def)

lemma example_find_pen:
  "findById example_env (products example_state) pen_id = Inr (Some example_pen)"
  by (simp add: findById_def example_env_def example_state_def example_pen_def example_ids)

lemma example_find_absent:
  "findById example_env (products example_state) absent_id = Inr None"
  by (simp add: findById_def example_env_def example_state_def example_pen_def example_ids)

theorem update_merges_or_answers_null_witness:
  "put_products example_env example_state (Some example_admin_token) pen_id example_patch =
     (Inr (Response 200 (JProduct (example_pen\<lparr>price := 12\<rparr>))),
      example_state\<lparr>products := [example_pen\<lparr>price := 12\<rparr>]\<rparr>) \<and>
   findById example_env (products example_state) pen_id = Inr (Some example_pen) \<and>
   price example_pen = 5 \<and>
   put_products example_env example_state (Some example_admin_token) ''missing'' example_patch =
     (Inl CastError, example_state)"
proof -
  have r: "tok_role \<lparr>tok_id = 1, tok_role = ''admin''\<rparr> = ''admin''" by simp
  have run: "put_products example_env example_state (Some example_admin_token) pen_id example_patch =
     (Inr (Response 200 (JProduct (example_pen\<lparr>price := 12\<rparr>))),
      example_state\<lparr>products := [example_pen\<lparr>price := 12\<rparr>]\<rparr>)"
    unfolding put_products_def example_admin_auth
    by (simp add: findByIdAndUpdate_def example_state_def example_patch_def example_pen_def
        merge_product_def supplied_def example_env_def example_ids)
  have bad: "\<not> object_id example_env ''missing''"
    by (simp add: example_env_def example_ids)
  from update_merges_or_answers_null [OF example_admin_auth r, of example_state pen_id example_patch]
    update_merges_or_answers_null [OF example_admin_auth r, of example_state "''missing''" example_patch]
    example_find_pen run bad
  show ?thesis by (simp add: example_pen_def)
qed

text \<open>
  C8 as stated does not hold: an update of an id that the store can cast and the catalog
  does not have is answered with status 200 and null, not with an error.
\<close>

theorem update_of_missing_id:
  "object_id example_env absent_id \<and>
   findById example_env (products example_state) absent_id = Inr None \<and>
   put_products example_env example_state (Some example_admin_token) absent_id example_patch =
     (Inr (Response 200 JNull), example_state)"
proof -
  have "object_id example_env absent_id" by (simp add: example_env_def example_ids)
  moreover have "put_products example_env example_state (Some example_admin_token) absent_id
      example_patch = (Inr (Response 200 JNull), example_state)"
    using example_find_absent
    by (simp add: put_products_def findByIdAndUpdate_def example_admin_auth findById_Some
        update_doc_missing)
  ultimately show ?thesis using example_find_absent by simp
qed

subsection \<open>List\<close>

text \<open>
  A pattern without special characters is parsed into its characters, and searching for it
  is the search for a substring without regard to case.
\<close>

lemma rx_parse_plain:
  "set s \<inter> set rx_special = {} \<Longrightarrow> rx_parse s = Some (map Lit s)"
  by (induction s) (auto simp: rx_special_def)

lemma rx_match_here_plain:
  "rx_match_here (map Lit s) nm = prefix (map lower s) (map lower nm)"
proof (induction s arbitrary: nm)
  case Nil
  show ?case by simp
next
  case (Cons c s)
  show ?case by (cases nm) (simp_all add: Cons.IH)
qed

lemma rx_search_plain: "rx_search (map Lit s) nm = ci_substring s nm"
proof (induction nm)
  case Nil
  show ?case by (cases s) (simp_all add: ci_substring_def)
next
  case (Cons c nm)
  have "rx_search (map Lit s) (c # nm) =
          (prefix (map lower s) (map lower (c # nm)) \<or> ci_substring s nm)"
    by (simp add: rx_match_here_plain Cons.IH)
  also have "\<dots> = ci_substring s (c # nm)"
    by (simp add: ci_substring_def sublist_Cons_right)
  finally show ?case .
qed

lemma sort_price_desc_sorted: "sorted_wrt (\<lambda>a b. price b \<le> price a) (sort_price_desc docs)"
proof -
  have "sorted (map (\<lambda>p. - price p) (sort_key (\<lambda>p. - price p) docs))"
    by (rule sorted_sort_key)
  then show ?thesis by (simp add: sort_price_desc_def sorted_map)
qed

lemma sort_price_desc_mset: "mset (sort_price_desc docs) = mset docs"
  by (simp add: sort_price_desc_def)

lemma product_find_plain:
  assumes "\<forall>s. search = Some s \<longrightarrow> set s \<inter> set rx_special = {}"
  shows "product_find docs (build_query search cat) =
           Some (filter (spec_included search (if cat = Some [] then None else cat)) docs)"
proof (cases search)
  case None
  then show ?thesis
    by (cases cat)
       (auto simp: product_find_def build_query_def truthy_def category_ok_def spec_included_def
          intro!: filter_cong)
next
  case (Some s)
  then have plain: "rx_parse s = Some (map Lit s)" using assms by (simp add: rx_parse_plain)
  show ?thesis
  proof (cases "s = []")
    case True
    then show ?thesis using Some
      by (cases cat)
         (auto simp: product_find_def build_query_def truthy_def category_ok_def spec_included_def
            ci_substring_def intro!: filter_cong)
  next
    case False
    then show ?thesis using Some plain
      by (cases cat)
         (auto simp: product_find_def build_query_def truthy_def category_ok_def spec_included_def
            rx_search_plain intro!: filter_cong)
  qed
qed

text \<open>
  C9, as the handler has it. The search string is a regular expression to the store. When
  it has none of the special characters of regular expressions, the products of the answer
  are those of the catalog whose name contains the search string without regard to case
  and whose category is the given one, where an empty category is no constraint, each as
  often as the catalog has it, and they are in descending order of price.
\<close>

theorem list_filters_and_sorts:
  assumes "\<forall>s. search = Some s \<longrightarrow> set s \<inter> set rx_special = {}"
  shows "\<exists>res. get_products st search cat = Some (Response 200 (JProducts res)) \<and>
           mset res =
             mset (filter (spec_included search (if cat = Some [] then None else cat)) (products st)) \<and>
           sorted_wrt (\<lambda>a b. price b \<le> price a) res"
  by (simp add: get_products_def product_find_plain [OF assms] sort_price_desc_mset
      sort_price_desc_sorted)

lemma example_pen_fields:
  "name example_pen = ''Pen''" "category example_pen = ''office''" "price example_pen = 5"
  by (simp_all add: example_pen_def)

lemma example_search_pe: "rx_search [Lit CHR ''p'', Lit CHR ''e''] ''Pen''"
  by code_simp

lemma example_not_substring: "\<not> ci_substring ''.'' ''Pen''"
  by code_simp

lemma example_substring: "ci_substring ''pe'' ''Pen''"
  by code_simp

theorem list_filters_and_sorts_witness:
  "get_products example_state (Some ''pe'') (Some ''office'') =
     Some (Response 200 (JProducts [example_pen])) \<and>
   filter (spec_included (Some ''pe'') (Some ''office'')) (products example_state) =
     [example_pen] \<and>
   set ''pe'' \<inter> set rx_special = {}"
proof -
  have plain: "\<forall>s. Some ''pe'' = Some s \<longrightarrow> set s \<inter> set rx_special = {}"
    by (simp add: rx_special_def)
  have run: "get_products example_state (Some ''pe'') (Some ''office'') =
     Some (Response 200 (JProducts [example_pen]))"
    by (simp add: get_products_def product_find_def build_query_def truthy_def category_ok_def
        example_state_def sort_price_desc_def rx_special_def example_search_pe
        example_pen_fields del: rx_search.simps)
  have incl: "filter (spec_included (Some ''pe'') (Some ''office'')) (products example_state) =
     [example_pen]"
    by (simp add: spec_included_def example_state_def example_substring example_pen_fields)
  from list_filters_and_sorts [OF plain, of example_state "Some ''office''"] plain run incl
  show ?thesis by simp
qed

text \<open>
  C9 as stated does not hold for a search string with a special character: the search
  string of one dot finds the product named Pen, whose name has no dot in it.
\<close>

theorem search_dot_matches_any_name:
  "get_products example_state (Some ''.'') None =
     Some (Response 200 (JProducts [example_pen])) \<and>
   name example_pen = ''Pen'' \<and>
   \<not> spec_included (Some ''.'') None example_pen"
  by (simp add: get_products_def product_find_def build_query_def truthy_def category_ok_def
      example_state_def sort_price_desc_def spec_included_def example_not_substring
      example_pen_fields)

end
